theory Spec2Isabelle
  imports Complex_Main "HOL-Library.AList"
begin

section \<open>The Go library called by mimeparse.go\<close>

text \<open>
  The source (trunk/go/mimeparse.go) calls \<^verbatim>\<open>strings.Split\<close>, \<^verbatim>\<open>strings.ToLower\<close>,
  \<^verbatim>\<open>strings.TrimSpace\<close> and \<^verbatim>\<open>strconv.Atof\<close> of the Go library. A Go string is a
  sequence of bytes and is modelled by \<^typ>\<open>string\<close>.

  \<^verbatim>\<open>strings.Split(s, sep, n)\<close> with a one-byte separator compares bytes, so it is
  modelled as it is. The library scans \<open>s\<close> from the left, cutting a piece at each
  separator while fewer than \<open>n - 1\<close> pieces have been cut, and ends with the rest of the
  string; \<open>n < 0\<close> stands for \<open>Count(s, sep) + 1\<close>, and \<open>n = 0\<close> gives no piece at all.
  \<open>genSplit sep k cur rest\<close> is the state of that scan: \<open>cur\<close> is the piece being
  read, \<open>k\<close> the number of pieces still allowed.
\<close>

fun genSplit :: "char \<Rightarrow> nat \<Rightarrow> string \<Rightarrow> string \<Rightarrow> string list" where
  "genSplit sep k cur [] = [cur]"
| "genSplit sep k cur (x # xs) =
     (if x = sep \<and> 1 < k then cur # genSplit sep (k - 1) [] xs
      else genSplit sep k (cur @ [x]) xs)"

definition Split :: "string \<Rightarrow> char \<Rightarrow> int \<Rightarrow> string list" where
  "Split s sep n =
     (if n = 0 then []
      else genSplit sep (if n < 0 then count_list s sep + 1 else nat n) [] s)"

text \<open>
  A Go \<^verbatim>\<open>float\<close> is a finite number, an infinity or a NaN. Every comparison with a NaN
  is false. The finite values are embedded in the rationals; the two zeros compare equal
  and are one value here.
\<close>

datatype gofloat = Fin rat | PosInf | NegInf | NaN

fun float_less :: "gofloat \<Rightarrow> gofloat \<Rightarrow> bool" where
  "float_less (Fin x) (Fin y) = (x < y)"
| "float_less (Fin x) PosInf = True"
| "float_less NegInf (Fin y) = True"
| "float_less NegInf PosInf = True"
| "float_less a b = False"

definition float_greater :: "gofloat \<Rightarrow> gofloat \<Rightarrow> bool" where
  "float_greater a b = float_less b a"

text \<open>
  \<^verbatim>\<open>strings.ToLower\<close> and \<^verbatim>\<open>strings.TrimSpace\<close> work on Unicode text (they decode
  UTF-8, lower-case every letter, trim every Unicode white space), and the result of
  \<^verbatim>\<open>strconv.Atof\<close> depends on binary rounding. The three are code of the Go library,
  not of this repository: every function of the source that calls them takes them from a
  record \<open>L\<close> of the library, and the theorems hold for every such record, under the
  properties of it that they name.
  \<open>Atof L s\<close> gives the value read and whether an error is reported (\<open>True\<close> for
  \<^verbatim>\<open>err != nil\<close>).
\<close>

record golib =
  ToLower :: "string \<Rightarrow> string"
  TrimSpace :: "string \<Rightarrow> string"
  Atof :: "string \<Rightarrow> gofloat \<times> bool"

section \<open>The library on ASCII text\<close>

text \<open>
  On a string of ASCII bytes the two string functions are known exactly: \<^verbatim>\<open>ToLower\<close>
  maps the letters A to Z, and \<^verbatim>\<open>TrimSpace\<close> removes blank, tab, line feed, vertical
  tab, form feed and carriage return at both ends. \<open>ascii_agree L\<close> says that the library
  \<open>L\<close> does so; nothing is said of a string with a byte above 0x7F.
\<close>

definition lower_char :: "char \<Rightarrow> char" where
  "lower_char c =
     (case map_of (zip ''ABCDEFGHIJKLMNOPQRSTUVWXYZ'' ''abcdefghijklmnopqrstuvwxyz'') c of
        Some d \<Rightarrow> d
      | None \<Rightarrow> c)"

definition ascii_ToLower :: "string \<Rightarrow> string" where
  "ascii_ToLower s = map lower_char s"

definition is_space :: "char \<Rightarrow> bool" where
  "is_space c \<longleftrightarrow> c \<in> set [CHR '' '', CHR 0x09, CHR 0x0A, CHR 0x0B, CHR 0x0C, CHR 0x0D]"

definition ascii_TrimSpace :: "string \<Rightarrow> string" where
  "ascii_TrimSpace s = rev (dropWhile is_space (rev (dropWhile is_space s)))"

definition is_ascii :: "string \<Rightarrow> bool" where
  "is_ascii s = list_all (\<lambda>c. \<not> digit7 c) s"

definition ascii_agree :: "golib \<Rightarrow> bool" where
  "ascii_agree L \<longleftrightarrow>
     (\<forall>s. is_ascii s \<longrightarrow> ToLower L s = ascii_ToLower s \<and> TrimSpace L s = ascii_TrimSpace s)"

text \<open>
  \<open>dec_atof\<close> stands for \<^verbatim>\<open>strconv.Atof\<close> in concrete runs. It reads the texts
  \<open>NaN\<close>, \<open>Inf\<close>, \<open>+Inf\<close> and \<open>-Inf\<close> in any case, without error, as the library
  does, and a decimal numeral (an optional sign, digits with at most one point and at
  least one digit, an optional exponent) as the rational it denotes; any other text is an
  error with value 0. It does not round to a binary float and reports no overflow.
  \<open>ascii_lib\<close> is the library of the concrete runs.
\<close>

definition digit_of :: "char \<Rightarrow> nat option" where
  "digit_of c = map_of (zip ''0123456789'' [0, 1, 2, 3, 4, 5, 6, 7, 8, 9]) c"

definition all_digits :: "string \<Rightarrow> bool" where
  "all_digits ds \<longleftrightarrow> ds \<noteq> [] \<and> list_all (\<lambda>c. digit_of c \<noteq> None) ds"

definition digits_value :: "string \<Rightarrow> nat" where
  "digits_value ds =
     foldl (\<lambda>a c. 10 * a + (case digit_of c of Some d \<Rightarrow> d | None \<Rightarrow> 0)) 0 ds"

definition strip_sign :: "string \<Rightarrow> bool \<times> string" where
  "strip_sign s =
     (if s \<noteq> [] \<and> hd s = CHR ''-'' then (True, tl s)
      else if s \<noteq> [] \<and> hd s = CHR ''+'' then (False, tl s)
      else (False, s))"

definition dec_atof :: "string \<Rightarrow> gofloat \<times> bool" where
  "dec_atof s =
     (let t = ascii_ToLower s
      in if t = ''nan'' then (NaN, False)
         else if t = ''inf'' \<or> t = ''+inf'' then (PosInf, False)
         else if t = ''-inf'' then (NegInf, False)
         else
           (let (neg, body) = strip_sign t;
                mant = takeWhile (\<lambda>c. c \<noteq> CHR ''e'') body;
                expo = dropWhile (\<lambda>c. c \<noteq> CHR ''e'') body;
                ip = takeWhile (\<lambda>c. c \<noteq> CHR ''.'') mant;
                fp = drop 1 (dropWhile (\<lambda>c. c \<noteq> CHR ''.'') mant);
                (eneg, edigits) = strip_sign (drop 1 expo)
            in if \<not> all_digits (ip @ fp) \<or> (expo \<noteq> [] \<and> \<not> all_digits edigits)
               then (Fin 0, True)
               else
                 (let m = rat_of_nat (digits_value (ip @ fp)) / 10 ^ length fp;
                      v = (if eneg then m / 10 ^ digits_value edigits
                           else m * 10 ^ digits_value edigits)
                  in (Fin (if neg then - v else v), False))))"

definition ascii_lib :: golib where
  "ascii_lib = \<lparr>ToLower = ascii_ToLower, TrimSpace = ascii_TrimSpace, Atof = dec_atof\<rparr>"

section \<open>The parser\<close>

text \<open>
  \<^verbatim>\<open>type Mime struct { mtype, subtype string; params map[string]string }\<close>.
  The Go map is an association list: \<open>map_of\<close> looks a key up, \<open>AList.update\<close> assigns
  (it overwrites the entry of a key already there, so keys stay distinct), and a
  \<^verbatim>\<open>range\<close> loop visits the entries in list order. Reading a key that is missing
  gives the empty string, as \<^verbatim>\<open>m[key]\<close> does in Go.
\<close>

record Mime =
  mtype :: string
  subtype :: string
  params :: "(string \<times> string) list"

datatype error = NotAValidMimetype

definition index_or_empty :: "(string \<times> string) list \<Rightarrow> string \<Rightarrow> string" where
  "index_or_empty m k = (case map_of m k of Some v \<Rightarrow> v | None \<Rightarrow> [])"

fun ht :: "string list \<Rightarrow> string \<times> string list" where
  "ht [] = ([], [])"
| "ht [x] = (x, [])"
| "ht (x # xs) = (x, xs)"

definition add_param ::
  "golib \<Rightarrow> (string \<times> string) list \<Rightarrow> string \<Rightarrow> (string \<times> string) list" where
  "add_param L ps s =
     (let subparts = Split s CHR ''='' 2
      in if length subparts = 2
         then AList.update (ToLower L (TrimSpace L (subparts ! 0))) (TrimSpace L (subparts ! 1)) ps
         else AList.update (ToLower L (TrimSpace L (subparts ! 0))) [] ps)"

definition ParseMimeType :: "golib \<Rightarrow> string \<Rightarrow> Mime \<times> error option" where
  "ParseMimeType L mimetype =
     (let (full_type0, parts) = ht (Split mimetype CHR '';'' (- 1));
          full_type1 = ToLower L full_type0;
          ps = foldl (add_param L) [] parts;
          full_type = (if TrimSpace L full_type1 = ''*'' then ''*/*'' else full_type1);
          list = Split full_type CHR ''/'' (- 1)
      in if length list \<noteq> 2
         then (\<lparr>mtype = [], subtype = [], params = [(''q'', ''0'')]\<rparr>, Some NotAValidMimetype)
         else (\<lparr>mtype = TrimSpace L (list ! 0), subtype = TrimSpace L (list ! 1), params = ps\<rparr>,
               None))"

definition ParseMediaRange :: "golib \<Rightarrow> string \<Rightarrow> Mime \<times> error option" where
  "ParseMediaRange L mediarange =
     (let (parsed, err) = ParseMimeType L mediarange
      in if err \<noteq> None then (parsed, err)
         else (case map_of (params parsed) ''q'' of
                 Some q \<Rightarrow>
                   (let (val, bad) = Atof L q
                    in if bad \<or> float_greater val (Fin 1) \<or> float_less val (Fin 0)
                       then (parsed\<lparr>params := AList.update ''q'' ''1'' (params parsed)\<rparr>, None)
                       else (parsed, None))
               | None \<Rightarrow> (parsed\<lparr>params := AList.update ''q'' ''1'' (params parsed)\<rparr>, None)))"

section \<open>The scorer\<close>

definition compatible :: "Mime \<Rightarrow> Mime \<Rightarrow> bool" where
  "compatible target r \<longleftrightarrow>
     (mtype r = mtype target \<or> mtype r = ''*'' \<or> mtype target = ''*'') \<and>
     (subtype r = subtype target \<or> subtype r = ''*'' \<or> subtype target = ''*'')"

text \<open>The inner loop over the target's parameters, counting \<open>pmatches\<close>.\<close>

definition count_pmatches :: "Mime \<Rightarrow> Mime \<Rightarrow> int" where
  "count_pmatches target r =
     foldl (\<lambda>pmatches (key, targetvalue).
              if key \<noteq> ''q''
              then (case map_of (params r) key of
                      Some v \<Rightarrow> if v = targetvalue then pmatches + 1 else pmatches
                    | None \<Rightarrow> pmatches)
              else pmatches)
       0 (params target)"

text \<open>The value of the local \<open>fitness\<close> at the comparison with \<open>bestfitness\<close>.\<close>

definition range_fitness :: "Mime \<Rightarrow> Mime \<Rightarrow> int" where
  "range_fitness target r =
     (let fitness = 0 + 1;
          fitness = fitness + count_pmatches target r;
          fitness = (if subtype r = subtype target then fitness + 10 else fitness);
          fitness = (if mtype r = mtype target then fitness + 100 else fitness)
      in fitness)"

text \<open>One pass of the loop over \<open>parsedRanges\<close>, on the pair (bestfitness, bestquality).\<close>

definition fq_step :: "golib \<Rightarrow> Mime \<Rightarrow> int \<times> gofloat \<Rightarrow> Mime \<Rightarrow> int \<times> gofloat" where
  "fq_step L target best r =
     (if compatible target r
      then (if range_fitness target r > fst best
            then (range_fitness target r, fst (Atof L (index_or_empty (params r) ''q'')))
            else best)
      else best)"

definition FitnessAndQuality :: "golib \<Rightarrow> string \<Rightarrow> Mime list \<Rightarrow> int \<times> gofloat" where
  "FitnessAndQuality L mimetype parsedRanges =
     (let target = fst (ParseMediaRange L mimetype)
      in foldl (fq_step L target) (- 1, Fin 0) parsedRanges)"

definition QualityParsed :: "golib \<Rightarrow> string \<Rightarrow> Mime list \<Rightarrow> gofloat" where
  "QualityParsed L mimetype parsedRanges = snd (FitnessAndQuality L mimetype parsedRanges)"

definition ParseHeader :: "golib \<Rightarrow> string \<Rightarrow> Mime list" where
  "ParseHeader L header = map (\<lambda>r. fst (ParseMediaRange L r)) (Split header CHR '','' (- 1))"

definition Quality :: "golib \<Rightarrow> string \<Rightarrow> string \<Rightarrow> gofloat" where
  "Quality L mimetype ranges = QualityParsed L mimetype (ParseHeader L ranges)"

section \<open>The selector\<close>




section \<open>The words of the specification\<close>

text \<open>
  The head token of a raw string is the part before the first semicolon, lower-cased as
  the source does before it looks at it; a head that is a bare star once trimmed is
  rewritten to \<open>*/*\<close>. \<open>ascii_head_token\<close> is the same token of an ASCII string before
  the lower-casing, which changes neither a star nor a slash nor white space there.
\<close>

definition head_token :: "golib \<Rightarrow> string \<Rightarrow> string" where
  "head_token L raw =
     (let h = ToLower L (takeWhile (\<lambda>c. c \<noteq> CHR '';'') raw)
      in if TrimSpace L h = ''*'' then ''*/*'' else h)"

definition ascii_head_token :: "string \<Rightarrow> string" where
  "ascii_head_token raw =
     (let h = takeWhile (\<lambda>c. c \<noteq> CHR '';'') raw
      in if ascii_TrimSpace h = ''*'' then ''*/*'' else h)"

text \<open>
  The fitness of a range for a candidate, in the words of the specification: 100 for an equal
  major type, 10 for an equal subtype, and one for every parameter key of the candidate
  other than \<open>q\<close> that the range's parameter map holds with an equal value.
\<close>

definition spec_paramMatches :: "Mime \<Rightarrow> Mime \<Rightarrow> nat" where
  "spec_paramMatches candidate r =
     length (filter (\<lambda>k. k \<noteq> ''q'' \<and> map_of (params r) k = map_of (params candidate) k)
               (remdups (map fst (params candidate))))"

definition spec_fitness :: "Mime \<Rightarrow> Mime \<Rightarrow> int" where
  "spec_fitness candidate r =
     (if mtype r = mtype candidate then 100 else 0) +
     (if subtype r = subtype candidate then 10 else 0) +
     int (spec_paramMatches candidate r)"

text \<open>The closed interval from 0 to 1; a NaN and the infinities are outside.\<close>

definition in_unit :: "gofloat \<Rightarrow> bool" where
  "in_unit v = (case v of Fin x \<Rightarrow> 0 \<le> x \<and> x \<le> 1 | _ \<Rightarrow> False)"

section \<open>Facts about the string functions\<close>

lemma lower_char_cases:
  "lower_char c = c \<or> lower_char c \<in> set ''abcdefghijklmnopqrstuvwxyz''"
  by (simp add: lower_char_def)

lemma lower_char_fix:
  "c \<notin> set ''ABCDEFGHIJKLMNOPQRSTUVWXYZ'' \<Longrightarrow> lower_char c = c"
  by (simp add: lower_char_def)

lemma lower_char_star: "lower_char c = CHR ''*'' \<longleftrightarrow> c = CHR ''*''"
  using lower_char_cases[of c] lower_char_fix[of c] by auto

lemma lower_char_slash: "lower_char c = CHR ''/'' \<longleftrightarrow> c = CHR ''/''"
  using lower_char_cases[of c] lower_char_fix[of c] by auto

lemma is_space_lower_char: "is_space (lower_char c) \<longleftrightarrow> is_space c"
  using lower_char_cases[of c] lower_char_fix[of c] by (auto simp: is_space_def)

lemma dropWhile_space_lower:
  "dropWhile is_space (map lower_char s) = map lower_char (dropWhile is_space s)"
  by (induction s) (simp_all add: is_space_lower_char)

lemma ascii_TrimSpace_ToLower: "ascii_TrimSpace (ascii_ToLower s) = ascii_ToLower (ascii_TrimSpace s)"
  by (simp add: ascii_TrimSpace_def ascii_ToLower_def dropWhile_space_lower rev_map)

lemma ascii_ToLower_is_star: "ascii_ToLower s = ''*'' \<longleftrightarrow> s = ''*''"
  by (cases s) (auto simp: ascii_ToLower_def lower_char_star)

lemma count_list_ToLower_slash: "count_list (ascii_ToLower s) CHR ''/'' = count_list s CHR ''/''"
  by (induction s) (simp_all add: ascii_ToLower_def lower_char_slash)

lemma takeWhile_ToLower_slash:
  "takeWhile (\<lambda>c. c \<noteq> CHR ''/'') (ascii_ToLower s) = ascii_ToLower (takeWhile (\<lambda>c. c \<noteq> CHR ''/'') s)"
  by (induction s) (simp_all add: ascii_ToLower_def lower_char_slash)

lemma dropWhile_ToLower_slash:
  "dropWhile (\<lambda>c. c \<noteq> CHR ''/'') (ascii_ToLower s) = ascii_ToLower (dropWhile (\<lambda>c. c \<noteq> CHR ''/'') s)"
  by (induction s) (simp_all add: ascii_ToLower_def lower_char_slash)

lemma all_dropWhile_iff: "(\<forall>c \<in> set (dropWhile P s). P c) \<longleftrightarrow> (\<forall>c \<in> set s. P c)"
  by (induction s) auto

lemma ascii_TrimSpace_empty_iff: "ascii_TrimSpace s = [] \<longleftrightarrow> (\<forall>c \<in> set s. is_space c)"
  by (simp add: ascii_TrimSpace_def dropWhile_eq_Nil_conv all_dropWhile_iff)

lemma genSplit_length:
  "count_list s sep < k \<Longrightarrow> length (genSplit sep k cur s) = count_list s sep + 1"
  by (induction s arbitrary: k cur) auto

lemma genSplit_unfold:
  "count_list s sep < k \<Longrightarrow>
   genSplit sep k cur s =
     (cur @ takeWhile (\<lambda>c. c \<noteq> sep) s) #
     (case dropWhile (\<lambda>c. c \<noteq> sep) s of [] \<Rightarrow> [] | x # rest \<Rightarrow> genSplit sep (k - 1) [] rest)"
  by (induction s arbitrary: k cur) auto

lemma Split_all_length: "length (Split s sep (- 1)) = count_list s sep + 1"
  by (simp add: Split_def genSplit_length)

lemma count_list_dropWhile:
  "dropWhile (\<lambda>c. c \<noteq> sep) s = x # rest \<Longrightarrow> count_list s sep = Suc (count_list rest sep)"
  by (induction s) (auto split: if_splits)

lemma Split_all_unfold:
  "Split s sep (- 1) =
     takeWhile (\<lambda>c. c \<noteq> sep) s #
     (case dropWhile (\<lambda>c. c \<noteq> sep) s of [] \<Rightarrow> [] | x # rest \<Rightarrow> Split rest sep (- 1))"
proof (cases "dropWhile (\<lambda>c. c \<noteq> sep) s")
  case Nil
  show ?thesis by (simp add: Split_def genSplit_unfold Nil)
next
  case (Cons x rest)
  show ?thesis
    by (simp add: Split_def genSplit_unfold count_list_dropWhile [OF Cons] Cons)
qed

lemma fst_ht_Cons: "fst (ht (x # xs)) = x"
  by (cases xs) simp_all

lemma snd_ht_Cons: "snd (ht (x # xs)) = xs"
  by (cases xs) simp_all

lemma fst_ht_Split: "fst (ht (Split s sep (- 1))) = takeWhile (\<lambda>c. c \<noteq> sep) s"
  by (subst Split_all_unfold) (simp add: fst_ht_Cons)

lemma Split_one_sep:
  assumes "count_list s sep = 1"
  shows "Split s sep (- 1) =
           [takeWhile (\<lambda>c. c \<noteq> sep) s, drop 1 (dropWhile (\<lambda>c. c \<noteq> sep) s)]"
proof (cases "dropWhile (\<lambda>c. c \<noteq> sep) s")
  case Nil
  then have "\<forall>c \<in> set s. c \<noteq> sep" by (simp add: dropWhile_eq_Nil_conv)
  then have "count_list s sep = 0" by (auto simp: count_list_0_iff)
  with assms show ?thesis by simp
next
  case (Cons x rest)
  from count_list_dropWhile [OF Cons] assms have "count_list rest sep = 0" by simp
  then have "\<forall>c \<in> set rest. c \<noteq> sep" by (auto simp: count_list_0_iff)
  then have tw: "takeWhile (\<lambda>c. c \<noteq> sep) rest = rest"
    and dw: "dropWhile (\<lambda>c. c \<noteq> sep) rest = []"
    by (simp_all add: takeWhile_eq_all_conv dropWhile_eq_Nil_conv)
  have "Split rest sep (- 1) = [rest]"
    by (subst Split_all_unfold) (simp add: tw dw)
  then show ?thesis
    by (subst Split_all_unfold) (simp add: Cons)
qed

lemma is_ascii_Nil [simp]: "is_ascii []"
  by (simp add: is_ascii_def)

lemma is_ascii_Cons [simp]: "is_ascii (c # s) \<longleftrightarrow> \<not> digit7 c \<and> is_ascii s"
  by (simp add: is_ascii_def)

lemma is_ascii_append [simp]: "is_ascii (a @ b) \<longleftrightarrow> is_ascii a \<and> is_ascii b"
  by (simp add: is_ascii_def)

lemma is_ascii_rev [simp]: "is_ascii (rev s) \<longleftrightarrow> is_ascii s"
  by (simp add: is_ascii_def)

lemma is_ascii_takeWhile: "is_ascii s \<Longrightarrow> is_ascii (takeWhile P s)"
  by (induction s) simp_all

lemma is_ascii_dropWhile: "is_ascii s \<Longrightarrow> is_ascii (dropWhile P s)"
  by (induction s) simp_all

lemma is_ascii_drop: "is_ascii s \<Longrightarrow> is_ascii (drop n s)"
  by (induction s arbitrary: n) (simp_all add: drop_Cons split: nat.splits)

lemma lower_char_ascii: "\<not> digit7 c \<Longrightarrow> \<not> digit7 (lower_char c)"
  using lower_char_cases [of c] by auto

lemma is_ascii_ToLower: "is_ascii s \<Longrightarrow> is_ascii (ascii_ToLower s)"
  by (induction s) (simp_all add: ascii_ToLower_def lower_char_ascii)

lemma is_ascii_TrimSpace: "is_ascii s \<Longrightarrow> is_ascii (ascii_TrimSpace s)"
  by (simp add: ascii_TrimSpace_def is_ascii_dropWhile)

lemma is_ascii_genSplit:
  "is_ascii cur \<Longrightarrow> is_ascii s \<Longrightarrow> list_all is_ascii (genSplit sep k cur s)"
  by (induction s arbitrary: k cur) simp_all

lemma is_ascii_Split: "is_ascii s \<Longrightarrow> list_all is_ascii (Split s sep n)"
  by (simp add: Split_def is_ascii_genSplit)

lemma is_ascii_ascii_head_token: "is_ascii raw \<Longrightarrow> is_ascii (ascii_head_token raw)"
  by (simp add: ascii_head_token_def Let_def is_ascii_takeWhile)

lemma ascii_agree_ascii_lib: "ascii_agree ascii_lib"
  by (simp add: ascii_agree_def ascii_lib_def)

lemma ascii_agree_ToLower: "ascii_agree L \<Longrightarrow> is_ascii s \<Longrightarrow> ToLower L s = ascii_ToLower s"
  by (simp add: ascii_agree_def)

lemma ascii_agree_TrimSpace:
  "ascii_agree L \<Longrightarrow> is_ascii s \<Longrightarrow> TrimSpace L s = ascii_TrimSpace s"
  by (simp add: ascii_agree_def)

lemma head_token_ascii:
  assumes "ascii_agree L" and "is_ascii raw"
  shows "head_token L raw = ascii_ToLower (ascii_head_token raw)"
proof -
  let ?h = "takeWhile (\<lambda>c. c \<noteq> CHR '';'') raw"
  have h: "is_ascii ?h" using assms(2) by (rule is_ascii_takeWhile)
  have l: "ToLower L ?h = ascii_ToLower ?h"
    using assms(1) h by (rule ascii_agree_ToLower)
  have t: "TrimSpace L (ascii_ToLower ?h) = ascii_ToLower (ascii_TrimSpace ?h)"
    using ascii_agree_TrimSpace [OF assms(1) is_ascii_ToLower [OF h]]
    by (simp add: ascii_TrimSpace_ToLower)
  have s: "ascii_ToLower ''*/*'' = ''*/*''"
    by (simp add: ascii_ToLower_def lower_char_def)
  show ?thesis
    by (simp add: head_token_def ascii_head_token_def Let_def l t ascii_ToLower_is_star s)
qed

section \<open>Facts about the parser\<close>

lemma ParseMimeType_unfold:
  "ParseMimeType L s =
     (let list = Split (head_token L s) CHR ''/'' (- 1)
      in if length list \<noteq> 2
         then (\<lparr>mtype = [], subtype = [], params = [(''q'', ''0'')]\<rparr>, Some NotAValidMimetype)
         else (\<lparr>mtype = TrimSpace L (list ! 0), subtype = TrimSpace L (list ! 1),
                params = foldl (add_param L) [] (snd (ht (Split s CHR '';'' (- 1))))\<rparr>, None))"
  unfolding ParseMimeType_def head_token_def Let_def case_prod_beta fst_ht_Split ..

lemma ParseMimeType_error_iff:
  "snd (ParseMimeType L s) \<noteq> None \<longleftrightarrow> count_list (head_token L s) CHR ''/'' \<noteq> 1"
  by (simp add: ParseMimeType_unfold Let_def Split_all_length)

lemma ParseMimeType_bad:
  "count_list (head_token L s) CHR ''/'' \<noteq> 1 \<Longrightarrow>
   ParseMimeType L s =
     (\<lparr>mtype = [], subtype = [], params = [(''q'', ''0'')]\<rparr>, Some NotAValidMimetype)"
  by (simp add: ParseMimeType_unfold Let_def Split_all_length)

lemma ParseMimeType_ok:
  assumes "count_list (head_token L s) CHR ''/'' = 1"
  shows "ParseMimeType L s =
     (\<lparr>mtype = TrimSpace L (takeWhile (\<lambda>c. c \<noteq> CHR ''/'') (head_token L s)),
       subtype = TrimSpace L (drop 1 (dropWhile (\<lambda>c. c \<noteq> CHR ''/'') (head_token L s))),
       params = foldl (add_param L) [] (snd (ht (Split s CHR '';'' (- 1))))\<rparr>, None)"
  by (simp add: ParseMimeType_unfold Split_one_sep [OF assms] del: One_nat_def)

lemma add_param_ascii:
  assumes "ascii_agree L" and "is_ascii s"
  shows "add_param L ps s = add_param ascii_lib ps s"
proof -
  have "list_all is_ascii (Split s CHR ''='' 2)"
    using assms(2) by (rule is_ascii_Split)
  then have p: "i < length (Split s CHR ''='' 2) \<Longrightarrow> is_ascii (Split s CHR ''='' 2 ! i)" for i
    by (simp add: list_all_length)
  have t: "TrimSpace L x = ascii_TrimSpace x" "TrimSpace ascii_lib x = ascii_TrimSpace x"
    "ToLower L (ascii_TrimSpace x) = ascii_ToLower (ascii_TrimSpace x)"
    "ToLower ascii_lib y = ascii_ToLower y" if "is_ascii x" for x y
    using that assms(1) is_ascii_TrimSpace [of x]
    by (simp_all add: ascii_agree_TrimSpace ascii_agree_ToLower ascii_lib_def)
  have "genSplit sep k cur x \<noteq> []" for sep k cur x
    by (induction x arbitrary: k cur) simp_all
  then have z: "0 < length (Split s CHR ''='' 2)" by (simp add: Split_def)
  show ?thesis
  proof (cases "length (Split s CHR ''='' 2) = 2")
    case True
    then have "is_ascii (Split s CHR ''='' 2 ! 0)" "is_ascii (Split s CHR ''='' 2 ! 1)"
      using p by simp_all
    then show ?thesis using True by (simp add: add_param_def Let_def t)
  next
    case False
    have "is_ascii (Split s CHR ''='' 2 ! 0)" using p z by blast
    then show ?thesis using False by (simp add: add_param_def Let_def t)
  qed
qed

lemma foldl_add_param_ascii:
  "ascii_agree L \<Longrightarrow> list_all is_ascii parts \<Longrightarrow>
   foldl (add_param L) ps parts = foldl (add_param ascii_lib) ps parts"
  by (induction parts arbitrary: ps) (simp_all add: add_param_ascii)

lemma list_all_snd_ht: "list_all P xs \<Longrightarrow> list_all P (snd (ht xs))"
  by (induction xs rule: ht.induct) simp_all

lemma ParseMimeType_ascii:
  assumes "ascii_agree L" and "is_ascii s"
  shows "ParseMimeType L s = ParseMimeType ascii_lib s"
proof -
  have h: "head_token L s = head_token ascii_lib s"
    using head_token_ascii [OF assms] head_token_ascii [OF ascii_agree_ascii_lib assms(2)]
    by simp
  have ha: "is_ascii (head_token ascii_lib s)"
    using head_token_ascii [OF ascii_agree_ascii_lib assms(2)]
      is_ascii_ToLower [OF is_ascii_ascii_head_token [OF assms(2)]] by simp
  then have "list_all is_ascii (Split (head_token ascii_lib s) CHR ''/'' (- 1))"
    by (rule is_ascii_Split)
  then have p: "i < length (Split (head_token ascii_lib s) CHR ''/'' (- 1)) \<Longrightarrow>
      TrimSpace L (Split (head_token ascii_lib s) CHR ''/'' (- 1) ! i) =
      TrimSpace ascii_lib (Split (head_token ascii_lib s) CHR ''/'' (- 1) ! i)" for i
    using assms(1) ascii_agree_ascii_lib
    by (simp add: list_all_length ascii_agree_TrimSpace)
  have "list_all is_ascii (snd (ht (Split s CHR '';'' (- 1))))"
    using assms(2) by (intro list_all_snd_ht is_ascii_Split)
  then have q: "foldl (add_param L) [] (snd (ht (Split s CHR '';'' (- 1)))) =
      foldl (add_param ascii_lib) [] (snd (ht (Split s CHR '';'' (- 1))))"
    using assms(1) by (rule foldl_add_param_ascii [rotated])
  show ?thesis
    by (simp add: ParseMimeType_unfold Let_def h q p)
qed

lemma snd_ParseMediaRange: "snd (ParseMediaRange L s) = snd (ParseMimeType L s)"
  by (auto simp: ParseMediaRange_def Let_def case_prod_beta split: option.splits)

lemma map_of_params_ParseMediaRange:
  assumes "snd (ParseMimeType L s) = None"
  shows "map_of (params (fst (ParseMediaRange L s))) =
     (map_of (params (fst (ParseMimeType L s))))
       (''q'' \<mapsto> (case map_of (params (fst (ParseMimeType L s))) ''q'' of
                 None \<Rightarrow> ''1''
               | Some q \<Rightarrow> if snd (Atof L q) \<or> float_greater (fst (Atof L q)) (Fin 1)
                               \<or> float_less (fst (Atof L q)) (Fin 0)
                           then ''1'' else q))"
  using assms
  by (auto simp: ParseMediaRange_def Let_def case_prod_beta update_conv' split: option.splits)

lemma mtype_ParseMediaRange: "mtype (fst (ParseMediaRange L e)) = mtype (fst (ParseMimeType L e))"
  by (auto simp: ParseMediaRange_def Let_def case_prod_beta split: option.splits)

lemma subtype_ParseMediaRange:
  "subtype (fst (ParseMediaRange L e)) = subtype (fst (ParseMimeType L e))"
  by (auto simp: ParseMediaRange_def Let_def case_prod_beta split: option.splits)

lemma other_params_ParseMediaRange:
  "k \<noteq> ''q'' \<Longrightarrow>
   map_of (params (fst (ParseMediaRange L e))) k = map_of (params (fst (ParseMimeType L e))) k"
  by (auto simp: ParseMediaRange_def Let_def case_prod_beta update_conv' split: option.splits)

lemma ParseMediaRange_no_q:
  "ParseMimeType L e = (m, None) \<Longrightarrow> map_of (params m) ''q'' = None \<Longrightarrow>
   ParseMediaRange L e = (m\<lparr>params := AList.update ''q'' ''1'' (params m)\<rparr>, None)"
  by (simp add: ParseMediaRange_def)

lemma ParseMediaRange_bad:
  "count_list (head_token L s) CHR ''/'' \<noteq> 1 \<Longrightarrow>
   ParseMediaRange L s =
     (\<lparr>mtype = [], subtype = [], params = [(''q'', ''0'')]\<rparr>, Some NotAValidMimetype)"
  by (simp add: ParseMediaRange_def ParseMimeType_bad)

lemma distinct_add_param: "distinct (map fst ps) \<Longrightarrow> distinct (map fst (add_param L ps s))"
  by (simp add: add_param_def Let_def distinct_update)

lemma distinct_foldl_add_param:
  "distinct (map fst ps) \<Longrightarrow> distinct (map fst (foldl (add_param L) ps parts))"
  by (induction parts arbitrary: ps) (simp_all add: distinct_add_param)

lemma distinct_params_ParseMimeType: "distinct (map fst (params (fst (ParseMimeType L s))))"
  by (simp add: ParseMimeType_unfold Let_def distinct_foldl_add_param)

lemma distinct_params_ParseMediaRange:
  "distinct (map fst (params (fst (ParseMediaRange L s))))"
  using distinct_params_ParseMimeType [of L s]
  by (auto simp: ParseMediaRange_def Let_def case_prod_beta distinct_update split: option.splits)

lemma index_or_empty_update: "index_or_empty (AList.update k v ps) k = v"
  by (simp add: index_or_empty_def update_conv')

section \<open>Facts about the scorer\<close>

lemma count_pmatches_foldl:
  "foldl (\<lambda>pmatches (key, targetvalue).
            if key \<noteq> ''q''
            then (case map_of rp key of
                    Some v \<Rightarrow> if v = targetvalue then pmatches + 1 else pmatches
                  | None \<Rightarrow> pmatches)
            else pmatches) a tp =
   a + int (length (filter (\<lambda>p. fst p \<noteq> ''q'' \<and> map_of rp (fst p) = Some (snd p)) tp))"
  by (induction tp arbitrary: a) (simp_all add: case_prod_beta split: option.splits)

lemma length_filter_fst:
  "length (filter (\<lambda>p. Q (fst p)) xs) = length (filter Q (map fst xs))"
  by (induction xs) simp_all

lemma count_pmatches_spec:
  assumes "distinct (map fst (params target))"
  shows "count_pmatches target r = int (spec_paramMatches target r)"
proof -
  let ?tp = "params target"
  let ?Q = "\<lambda>k. k \<noteq> ''q'' \<and> map_of (params r) k = map_of ?tp k"
  have "filter (\<lambda>p. fst p \<noteq> ''q'' \<and> map_of (params r) (fst p) = Some (snd p)) ?tp =
        filter (\<lambda>p. ?Q (fst p)) ?tp"
    using assms by (intro filter_cong) auto
  moreover have "length (filter (\<lambda>p. ?Q (fst p)) ?tp) = length (filter ?Q (map fst ?tp))"
    by (rule length_filter_fst)
  moreover have "remdups (map fst ?tp) = map fst ?tp"
    using assms by (rule distinct_remdups_id)
  ultimately show ?thesis
    by (simp only: count_pmatches_def count_pmatches_foldl spec_paramMatches_def)
qed

lemma count_pmatches_cong:
  assumes "\<forall>k. k \<noteq> ''q'' \<longrightarrow> map_of (params r) k = map_of (params r') k"
  shows "count_pmatches target r = count_pmatches target r'"
proof -
  have "filter (\<lambda>p. fst p \<noteq> ''q'' \<and> map_of (params r) (fst p) = Some (snd p)) (params target) =
        filter (\<lambda>p. fst p \<noteq> ''q'' \<and> map_of (params r') (fst p) = Some (snd p)) (params target)"
    using assms by (intro filter_cong) auto
  then show ?thesis
    by (simp only: count_pmatches_def count_pmatches_foldl)
qed

lemma range_fitness_ParseMediaRange:
  "range_fitness target (fst (ParseMediaRange L e)) = range_fitness target (fst (ParseMimeType L e))"
proof -
  have "count_pmatches target (fst (ParseMediaRange L e)) =
        count_pmatches target (fst (ParseMimeType L e))"
    by (rule count_pmatches_cong) (simp add: other_params_ParseMediaRange)
  then show ?thesis
    by (simp add: range_fitness_def mtype_ParseMediaRange subtype_ParseMediaRange)
qed

lemma range_fitness_spec:
  "distinct (map fst (params target)) \<Longrightarrow> range_fitness target r = 1 + spec_fitness target r"
  by (simp add: range_fitness_def Let_def spec_fitness_def count_pmatches_spec)

lemma range_fitness_pos: "1 \<le> range_fitness target r"
proof -
  have "0 \<le> count_pmatches target r"
    by (simp add: count_pmatches_def count_pmatches_foldl)
  then show ?thesis by (simp add: range_fitness_def Let_def)
qed


lemma compatible_sentinel_target:
  "compatible \<lparr>mtype = [], subtype = [], params = ps\<rparr> r \<longleftrightarrow>
     (mtype r = [] \<or> mtype r = ''*'') \<and> (subtype r = [] \<or> subtype r = ''*'')"
  by (auto simp: compatible_def)

lemma range_fitness_sentinel_target:
  "range_fitness \<lparr>mtype = [], subtype = [], params = [(''q'', ''0'')]\<rparr> r =
     1 + (if subtype r = [] then 10 else 0) + (if mtype r = [] then 100 else 0)"
  by (simp add: range_fitness_def count_pmatches_def Let_def)

lemma fq_step_fst_mono: "fst best \<le> fst (fq_step L target best r)"
  by (simp add: fq_step_def)

lemma fq_foldl_fst_mono: "fst best \<le> fst (foldl (fq_step L target) best rs)"
proof (induction rs arbitrary: best)
  case Nil
  show ?case by simp
next
  case (Cons r rs)
  have "fst best \<le> fst (fq_step L target best r)" by (rule fq_step_fst_mono)
  also have "\<dots> \<le> fst (foldl (fq_step L target) (fq_step L target best r) rs)"
    by (rule Cons.IH)
  finally show ?case by simp
qed

lemma fq_foldl_fst_ge:
  "r \<in> set rs \<Longrightarrow> compatible target r \<Longrightarrow>
   range_fitness target r \<le> fst (foldl (fq_step L target) best rs)"
proof (induction rs arbitrary: best)
  case Nil
  then show ?case by simp
next
  case (Cons x rs)
  show ?case
  proof (cases "r = x")
    case True
    have "range_fitness target r \<le> fst (fq_step L target best x)"
      using Cons.prems True by (simp add: fq_step_def)
    also have "\<dots> \<le> fst (foldl (fq_step L target) (fq_step L target best x) rs)"
      by (rule fq_foldl_fst_mono)
    finally show ?thesis by simp
  next
    case False
    with Cons.prems have "r \<in> set rs" by simp
    from Cons.IH [OF this Cons.prems(2)] show ?thesis by simp
  qed
qed

lemma fq_foldl_below:
  "fst best < F \<Longrightarrow>
   \<forall>x \<in> set pre. compatible target x \<longrightarrow> range_fitness target x < F \<Longrightarrow>
   fst (foldl (fq_step L target) best pre) < F"
  by (induction pre arbitrary: best) (auto simp: fq_step_def)

lemma fq_foldl_keep:
  "\<forall>x \<in> set post. compatible target x \<longrightarrow> range_fitness target x \<le> fst best \<Longrightarrow>
   foldl (fq_step L target) best post = best"
  by (induction post arbitrary: best) (auto simp: fq_step_def)

lemma fq_foldl_first_max:
  assumes "compatible target r"
    and "\<forall>x \<in> set pre. compatible target x \<longrightarrow> range_fitness target x < range_fitness target r"
    and "\<forall>x \<in> set post. compatible target x \<longrightarrow> range_fitness target x \<le> range_fitness target r"
  shows "foldl (fq_step L target) (- 1, Fin 0) (pre @ r # post) =
           (range_fitness target r, fst (Atof L (index_or_empty (params r) ''q'')))"
proof -
  have "fst (- 1 :: int, Fin 0) < range_fitness target r"
    using range_fitness_pos [of target r] by simp
  from fq_foldl_below [OF this assms(2)]
  have "fst (foldl (fq_step L target) (- 1, Fin 0) pre) < range_fitness target r" .
  then have "fq_step L target (foldl (fq_step L target) (- 1, Fin 0) pre) r =
      (range_fitness target r, fst (Atof L (index_or_empty (params r) ''q'')))"
    using assms(1) by (simp add: fq_step_def)
  then show ?thesis
    using assms(3) by (simp add: fq_foldl_keep)
qed

lemma fq_foldl_none:
  "\<forall>x \<in> set rs. \<not> compatible target x \<Longrightarrow> foldl (fq_step L target) best rs = best"
  by (induction rs arbitrary: best) (auto simp: fq_step_def)


section \<open>Facts about the selector\<close>





section \<open>The parser: claims\<close>

text \<open>
  C5. \<open>ParseMimeType\<close> returns an error if and only if the head token (the part before
  the first semicolon, a bare star after trimming rewritten to \<open>*/*\<close>) does not contain
  exactly one slash. This holds for every library, of the head token as the source reads
  it, lower-cased; on ASCII text, where the library is known, it holds of the head token as
  it is written.
\<close>

theorem ParseMimeType_fails_iff:
  "(snd (ParseMimeType L raw) \<noteq> None \<longleftrightarrow> count_list (head_token L raw) CHR ''/'' \<noteq> 1) \<and>
   (ascii_agree L \<and> is_ascii raw \<longrightarrow>
      (snd (ParseMimeType L raw) \<noteq> None \<longleftrightarrow> count_list (ascii_head_token raw) CHR ''/'' \<noteq> 1))"
proof -
  have a: "snd (ParseMimeType L raw) \<noteq> None \<longleftrightarrow> count_list (head_token L raw) CHR ''/'' \<noteq> 1"
    by (rule ParseMimeType_error_iff)
  have "count_list (head_token L raw) CHR ''/'' = count_list (ascii_head_token raw) CHR ''/''"
    if "ascii_agree L" and "is_ascii raw"
    by (simp only: head_token_ascii [OF that] count_list_ToLower_slash)
  with a show ?thesis by metis
qed

theorem ParseMimeType_fails_iff_witness:
  "ascii_agree ascii_lib \<and> is_ascii ''text/html/x;q=1'' \<and> is_ascii '' *; q=.2'' \<and>
   count_list (ascii_head_token ''text/html/x;q=1'') CHR ''/'' = 2 \<and>
   snd (ParseMimeType ascii_lib ''text/html/x;q=1'') \<noteq> None \<and>
   count_list (ascii_head_token '' *; q=.2'') CHR ''/'' = 1 \<and>
   snd (ParseMimeType ascii_lib '' *; q=.2'') = None"
proof -
  have a: "is_ascii ''text/html/x;q=1''" and b: "is_ascii '' *; q=.2''"
    by code_simp+
  have c: "count_list (ascii_head_token ''text/html/x;q=1'') CHR ''/'' = 2"
    and d: "count_list (ascii_head_token '' *; q=.2'') CHR ''/'' = 1"
    by code_simp+
  have c': "count_list (ascii_head_token ''text/html/x;q=1'') CHR ''/'' \<noteq> 1"
    and d': "\<not> count_list (ascii_head_token '' *; q=.2'') CHR ''/'' \<noteq> 1"
    by (simp_all add: c d)
  have e: "snd (ParseMimeType ascii_lib ''text/html/x;q=1'') \<noteq> None"
    using ParseMimeType_fails_iff [of ascii_lib "''text/html/x;q=1''"] ascii_agree_ascii_lib a c'
    by blast
  have f: "snd (ParseMimeType ascii_lib '' *; q=.2'') = None"
    using ParseMimeType_fails_iff [of ascii_lib "'' *; q=.2''"] ascii_agree_ascii_lib b d'
    by blast
  show ?thesis
    by (intro conjI ascii_agree_ascii_lib a b c d e f)
qed

text \<open>
  C2, as stated: the major type and the subtype of a successful parse are never empty.
  The source does not look at the two sides of the slash: \<open>/\<close> alone parses without
  error, to an empty major type and an empty subtype.
\<close>

theorem ParseMimeType_empty_types_counterexample:
  "ParseMimeType ascii_lib ''/'' = (\<lparr>mtype = [], subtype = [], params = []\<rparr>, None)"
  by code_simp

text \<open>
  C2, amended. On every input that \<open>ParseMimeType\<close> parses without error, the major type
  and the subtype are the texts before and after the slash of the lower-cased head token,
  trimmed by the library; each is empty exactly when its side trims to nothing. On ASCII
  text, where the library is known, each is non-empty exactly when its side of the head
  token has a character that is not white space.
\<close>

theorem ParseMimeType_types:
  assumes "snd (ParseMimeType L raw) = None"
  shows "mtype (fst (ParseMimeType L raw)) =
           TrimSpace L (takeWhile (\<lambda>c. c \<noteq> CHR ''/'') (head_token L raw)) \<and>
         subtype (fst (ParseMimeType L raw)) =
           TrimSpace L (drop 1 (dropWhile (\<lambda>c. c \<noteq> CHR ''/'') (head_token L raw))) \<and>
         (ascii_agree L \<and> is_ascii raw \<longrightarrow>
            mtype (fst (ParseMimeType L raw)) =
              ascii_ToLower (ascii_TrimSpace (takeWhile (\<lambda>c. c \<noteq> CHR ''/'') (ascii_head_token raw))) \<and>
            subtype (fst (ParseMimeType L raw)) =
              ascii_ToLower (ascii_TrimSpace
                (drop 1 (dropWhile (\<lambda>c. c \<noteq> CHR ''/'') (ascii_head_token raw)))) \<and>
            (mtype (fst (ParseMimeType L raw)) \<noteq> [] \<longleftrightarrow>
               (\<exists>c \<in> set (takeWhile (\<lambda>c. c \<noteq> CHR ''/'') (ascii_head_token raw)). \<not> is_space c)) \<and>
            (subtype (fst (ParseMimeType L raw)) \<noteq> [] \<longleftrightarrow>
               (\<exists>c \<in> set (drop 1 (dropWhile (\<lambda>c. c \<noteq> CHR ''/'') (ascii_head_token raw))).
                  \<not> is_space c)))"
proof -
  let ?a = "takeWhile (\<lambda>c. c \<noteq> CHR ''/'') (ascii_head_token raw)"
  let ?b = "drop 1 (dropWhile (\<lambda>c. c \<noteq> CHR ''/'') (ascii_head_token raw))"
  from assms have one: "count_list (head_token L raw) CHR ''/'' = 1"
    using ParseMimeType_error_iff [of L raw] by simp
  have m: "mtype (fst (ParseMimeType L raw)) =
           TrimSpace L (takeWhile (\<lambda>c. c \<noteq> CHR ''/'') (head_token L raw))"
    and s: "subtype (fst (ParseMimeType L raw)) =
           TrimSpace L (drop 1 (dropWhile (\<lambda>c. c \<noteq> CHR ''/'') (head_token L raw)))"
    by (simp_all add: ParseMimeType_ok [OF one] del: One_nat_def)
  have "mtype (fst (ParseMimeType L raw)) = ascii_ToLower (ascii_TrimSpace ?a) \<and>
        subtype (fst (ParseMimeType L raw)) = ascii_ToLower (ascii_TrimSpace ?b)"
    if ag: "ascii_agree L" and ar: "is_ascii raw"
  proof -
    have h: "is_ascii (ascii_head_token raw)"
      using ar by (rule is_ascii_ascii_head_token)
    have d: "drop 1 (ascii_ToLower x) = ascii_ToLower (drop 1 x)" for x
      by (simp add: ascii_ToLower_def drop_map)
    have ia: "is_ascii (ascii_ToLower ?a)"
      using h by (intro is_ascii_ToLower is_ascii_takeWhile)
    have ib: "is_ascii (ascii_ToLower ?b)"
      using h by (intro is_ascii_ToLower is_ascii_drop is_ascii_dropWhile)
    show ?thesis
      using ascii_agree_TrimSpace [OF ag ia] ascii_agree_TrimSpace [OF ag ib]
      by (simp add: m s head_token_ascii [OF ag ar] takeWhile_ToLower_slash
          dropWhile_ToLower_slash d ascii_TrimSpace_ToLower del: One_nat_def)
  qed
  then have "ascii_agree L \<and> is_ascii raw \<longrightarrow>
            mtype (fst (ParseMimeType L raw)) = ascii_ToLower (ascii_TrimSpace ?a) \<and>
            subtype (fst (ParseMimeType L raw)) = ascii_ToLower (ascii_TrimSpace ?b) \<and>
            (mtype (fst (ParseMimeType L raw)) \<noteq> [] \<longleftrightarrow> (\<exists>c \<in> set ?a. \<not> is_space c)) \<and>
            (subtype (fst (ParseMimeType L raw)) \<noteq> [] \<longleftrightarrow> (\<exists>c \<in> set ?b. \<not> is_space c))"
    by (auto simp: ascii_ToLower_def ascii_TrimSpace_empty_iff simp del: One_nat_def)
  with m s show ?thesis by blast
qed

theorem ParseMimeType_types_witness:
  "snd (ParseMimeType ascii_lib '' Text/HTML ;q=1'') = None \<and>
   ascii_agree ascii_lib \<and> is_ascii '' Text/HTML ;q=1'' \<and>
   mtype (fst (ParseMimeType ascii_lib '' Text/HTML ;q=1'')) = ''text'' \<and>
   subtype (fst (ParseMimeType ascii_lib '' Text/HTML ;q=1'')) = ''html''"
proof -
  have ok: "snd (ParseMimeType ascii_lib '' Text/HTML ;q=1'') = None"
    by code_simp
  have a: "is_ascii '' Text/HTML ;q=1''"
    by code_simp
  have x: "ascii_ToLower (ascii_TrimSpace
             (takeWhile (\<lambda>c. c \<noteq> CHR ''/'') (ascii_head_token '' Text/HTML ;q=1''))) = ''text''"
    and y: "ascii_ToLower (ascii_TrimSpace
             (drop 1 (dropWhile (\<lambda>c. c \<noteq> CHR ''/'') (ascii_head_token '' Text/HTML ;q=1'')))) = ''html''"
    by code_simp+
  from ParseMimeType_types [OF ok] ascii_agree_ascii_lib a
  have "mtype (fst (ParseMimeType ascii_lib '' Text/HTML ;q=1'')) = ''text''"
    and "subtype (fst (ParseMimeType ascii_lib '' Text/HTML ;q=1'')) = ''html''"
    unfolding x y by blast+
  then show ?thesis
    by (intro conjI ok ascii_agree_ascii_lib a)
qed

text \<open>
  C4. \<open>ParseMediaRange\<close> is to set the \<open>q\<close> entry to the string \<open>1\<close> whenever the
  parsed \<open>q\<close> is absent, empty, not a number or outside the interval from 0 to 1. The
  source tests \<open>val > 1.0 || val < 0.0\<close>, and both comparisons are false of a NaN:
  \<^verbatim>\<open>strconv.Atof\<close> reads the text \<open>NaN\<close> without error, and the source keeps it.
\<close>

theorem ParseMediaRange_keeps_NaN:
  "Atof ascii_lib ''NaN'' = (NaN, False) \<and> \<not> in_unit NaN \<and>
   ParseMediaRange ascii_lib ''a/b;q=NaN'' =
     (\<lparr>mtype = ''a'', subtype = ''b'', params = [(''q'', ''NaN'')]\<rparr>, None)"
  by code_simp

text \<open>
  What the source does with \<open>q\<close>, for every library: the entry becomes \<open>1\<close> when the
  parsed \<open>q\<close> is absent, when \<open>Atof\<close> reports an error, and when the value read compares
  above 1 or below 0; otherwise the string supplied is kept. When the value read is not a
  NaN, that is the rule of the interval.
\<close>

lemma ParseMediaRange_q_rule:
  assumes "snd (ParseMediaRange L raw) = None"
  shows "map_of (params (fst (ParseMediaRange L raw))) ''q'' =
     Some (case map_of (params (fst (ParseMimeType L raw))) ''q'' of
             None \<Rightarrow> ''1''
           | Some q \<Rightarrow> if snd (Atof L q) \<or> float_greater (fst (Atof L q)) (Fin 1)
                           \<or> float_less (fst (Atof L q)) (Fin 0)
                       then ''1'' else q)"
proof -
  have ok: "snd (ParseMimeType L raw) = None"
    using assms by (simp add: snd_ParseMediaRange)
  show ?thesis
    by (simp add: map_of_params_ParseMediaRange [OF ok] split: option.splits)
qed

lemma not_in_unit_iff:
  "v \<noteq> NaN \<Longrightarrow> \<not> in_unit v \<longleftrightarrow> float_greater v (Fin 1) \<or> float_less v (Fin 0)"
  by (cases v) (auto simp: in_unit_def float_greater_def)

section \<open>The scorer: claims\<close>

text \<open>
  C1, as stated: the fitness of a compatible range is 100 for an equal major type, plus 10
  for an equal subtype, plus the number of matching parameters, with no other term. The
  source first adds 1 for every compatible range: \<open>text/html\<close> against the range
  \<open>text/html\<close> scores 111, not 110.
\<close>

theorem range_fitness_counterexample:
  "compatible (fst (ParseMediaRange ascii_lib ''text/html'')) (ParseHeader ascii_lib ''text/html'' ! 0) \<and>
   spec_fitness (fst (ParseMediaRange ascii_lib ''text/html'')) (ParseHeader ascii_lib ''text/html'' ! 0)
     = 110 \<and>
   range_fitness (fst (ParseMediaRange ascii_lib ''text/html'')) (ParseHeader ascii_lib ''text/html'' ! 0)
     = 111 \<and>
   FitnessAndQuality ascii_lib ''text/html'' (ParseHeader ascii_lib ''text/html'') = (111, Fin 1)"
  by code_simp

text \<open>
  C1, amended. For every range of the parsed list that is compatible with the candidate,
  \<open>FitnessAndQuality\<close> computes its fitness as 1, plus 100 if the major types are equal,
  plus 10 if the subtypes are equal, plus the number of parameter keys of the candidate
  other than \<open>q\<close> that the range holds with an equal value. The fitness returned for
  the list is at least that number, and is that number when the range is alone.
\<close>

theorem range_fitness_formula:
  assumes "target = fst (ParseMediaRange L mimetype)"
    and "r \<in> set parsedRanges"
    and "compatible target r"
  shows "range_fitness target r = 1 + spec_fitness target r \<and>
         1 + spec_fitness target r \<le> fst (FitnessAndQuality L mimetype parsedRanges) \<and>
         fst (FitnessAndQuality L mimetype [r]) = 1 + spec_fitness target r"
proof -
  have d: "distinct (map fst (params target))"
    using assms(1) by (simp add: distinct_params_ParseMediaRange)
  have a: "range_fitness target r = 1 + spec_fitness target r"
    by (rule range_fitness_spec [OF d])
  have b: "range_fitness target r \<le> fst (FitnessAndQuality L mimetype parsedRanges)"
    using fq_foldl_fst_ge [OF assms(2,3)] assms(1) by (simp add: FitnessAndQuality_def Let_def)
  have c: "FitnessAndQuality L mimetype [r] =
             (range_fitness target r, fst (Atof L (index_or_empty (params r) ''q'')))"
    using fq_foldl_first_max [of target r "[]" "[]" L] assms(1,3)
    by (simp add: FitnessAndQuality_def Let_def)
  show ?thesis using a b c by simp
qed

theorem range_fitness_formula_witness:
  "\<lparr>mtype = ''text'', subtype = ''html'', params = [(''level'', ''1''), (''q'', ''1'')]\<rparr>
     \<in> set (ParseHeader ascii_lib ''text/html;q=0.7, text/html;level=1'') \<and>
   compatible (fst (ParseMediaRange ascii_lib ''text/html;level=1''))
     \<lparr>mtype = ''text'', subtype = ''html'', params = [(''level'', ''1''), (''q'', ''1'')]\<rparr> \<and>
   range_fitness (fst (ParseMediaRange ascii_lib ''text/html;level=1''))
     \<lparr>mtype = ''text'', subtype = ''html'', params = [(''level'', ''1''), (''q'', ''1'')]\<rparr> = 112 \<and>
   112 \<le> fst (FitnessAndQuality ascii_lib ''text/html;level=1''
               (ParseHeader ascii_lib ''text/html;q=0.7, text/html;level=1''))"
proof -
  let ?r = "\<lparr>mtype = ''text'', subtype = ''html'', params = [(''level'', ''1''), (''q'', ''1'')]\<rparr>"
  have m: "?r \<in> set (ParseHeader ascii_lib ''text/html;q=0.7, text/html;level=1'')"
    by code_simp
  have c: "compatible (fst (ParseMediaRange ascii_lib ''text/html;level=1'')) ?r"
    by code_simp
  have s: "spec_fitness (fst (ParseMediaRange ascii_lib ''text/html;level=1'')) ?r = 111"
    by code_simp
  from range_fitness_formula [OF refl m c] show ?thesis
    using m c s by simp
qed

text \<open>
  C6. When several compatible ranges reach the maximal fitness, the quality returned is
  that of the first of them in the order of the list: a range whose fitness no earlier
  compatible range reaches and no later compatible range exceeds gives the result, with the
  number read from its \<open>q\<close> entry.
\<close>

theorem FitnessAndQuality_first_max:
  assumes "target = fst (ParseMediaRange L mimetype)"
    and "parsedRanges = pre @ r # post"
    and "compatible target r"
    and "\<forall>x \<in> set pre. compatible target x \<longrightarrow> range_fitness target x < range_fitness target r"
    and "\<forall>x \<in> set post. compatible target x \<longrightarrow> range_fitness target x \<le> range_fitness target r"
  shows "FitnessAndQuality L mimetype parsedRanges =
           (range_fitness target r, fst (Atof L (index_or_empty (params r) ''q'')))"
  using fq_foldl_first_max [OF assms(3,4,5)] assms(1,2)
  by (simp add: FitnessAndQuality_def Let_def)

theorem FitnessAndQuality_first_max_witness:
  "FitnessAndQuality ascii_lib ''text/html''
     (ParseHeader ascii_lib ''text/*;q=0.3,text/html;q=0.7,text/html;q=0.4'') = (111, Fin (7 / 10)) \<and>
   range_fitness (fst (ParseMediaRange ascii_lib ''text/html''))
     \<lparr>mtype = ''text'', subtype = ''html'', params = [(''q'', ''0.4'')]\<rparr> = 111"
proof -
  let ?t = "fst (ParseMediaRange ascii_lib ''text/html'')"
  let ?r1 = "\<lparr>mtype = ''text'', subtype = ''*'', params = [(''q'', ''0.3'')]\<rparr>"
  let ?r2 = "\<lparr>mtype = ''text'', subtype = ''html'', params = [(''q'', ''0.7'')]\<rparr>"
  let ?r3 = "\<lparr>mtype = ''text'', subtype = ''html'', params = [(''q'', ''0.4'')]\<rparr>"
  have p: "ParseHeader ascii_lib ''text/*;q=0.3,text/html;q=0.7,text/html;q=0.4'' = [?r1] @ ?r2 # [?r3]"
    by code_simp
  have c: "compatible ?t ?r2" by code_simp
  have f1: "range_fitness ?t ?r1 = 101" by code_simp
  have f2: "range_fitness ?t ?r2 = 111" by code_simp
  have f3: "range_fitness ?t ?r3 = 111" by code_simp
  have a: "\<forall>x \<in> set [?r1]. compatible ?t x \<longrightarrow> range_fitness ?t x < range_fitness ?t ?r2"
    by (simp add: f1 f2)
  have b: "\<forall>x \<in> set [?r3]. compatible ?t x \<longrightarrow> range_fitness ?t x \<le> range_fitness ?t ?r2"
    by (simp add: f2 f3)
  have q: "fst (Atof ascii_lib ''0.7'') = Fin (7 / 10)" by code_simp
  from FitnessAndQuality_first_max [OF refl p c a b] show ?thesis
    by (simp add: f2 f3 q index_or_empty_def)
qed




text \<open>
  C10, as stated: for a candidate that fails to parse and every list holding a range
  \<open>*/*\<close>, the call returns that range's quality. Another range can take the result:
  in the list of \<open>*/*;q=0.5,junk\<close> the second entry, itself parsed to empty types, has
  fitness 111 against the candidate \<open>junk\<close>, and the quality returned is its 0, not 0.5.
\<close>

theorem malformed_candidate_counterexample:
  "snd (ParseMediaRange ascii_lib ''junk'') \<noteq> None \<and>
   ParseHeader ascii_lib ''*/*;q=0.5,junk'' ! 0
     = \<lparr>mtype = ''*'', subtype = ''*'', params = [(''q'', ''0.5'')]\<rparr> \<and>
   fst (Atof ascii_lib ''0.5'') = Fin (1 / 2) \<and>
   FitnessAndQuality ascii_lib ''junk'' (ParseHeader ascii_lib ''*/*;q=0.5,junk'') = (111, Fin 0)"
  by code_simp

text \<open>
  C10, amended. When the candidate fails to parse, the error is dropped and the candidate
  has empty major type and subtype and no parameter but \<open>q\<close>. For every list holding
  a range whose major type and subtype are both a star, the candidate is compatible with
  that range and the fitness returned is at least 1. The quality returned is that range's
  when no range before it in the list is compatible with the candidate and no compatible
  range after it has an empty major type or subtype; the result is then (1, that quality).
\<close>

theorem malformed_candidate:
  assumes "count_list (head_token L mimetype) CHR ''/'' \<noteq> 1"
    and "target = fst (ParseMediaRange L mimetype)"
    and "mtype r = ''*''" and "subtype r = ''*''"
    and "r \<in> set parsedRanges"
  shows "snd (ParseMediaRange L mimetype) \<noteq> None \<and>
         target = \<lparr>mtype = [], subtype = [], params = [(''q'', ''0'')]\<rparr> \<and>
         compatible target r \<and>
         1 \<le> fst (FitnessAndQuality L mimetype parsedRanges) \<and>
         (\<forall>pre post.
            parsedRanges = pre @ r # post \<and>
            (\<forall>x \<in> set pre. \<not> compatible target x) \<and>
            (\<forall>x \<in> set post. compatible target x \<longrightarrow> mtype x \<noteq> [] \<and> subtype x \<noteq> []) \<longrightarrow>
            FitnessAndQuality L mimetype parsedRanges =
              (1, fst (Atof L (index_or_empty (params r) ''q''))))"
proof -
  have t: "target = \<lparr>mtype = [], subtype = [], params = [(''q'', ''0'')]\<rparr>"
    using assms(1,2) by (simp add: ParseMediaRange_bad)
  have e: "snd (ParseMediaRange L mimetype) \<noteq> None"
    using assms(1) by (simp add: ParseMediaRange_bad)
  have c: "compatible target r"
    using assms(3,4) by (simp add: compatible_def)
  have f: "range_fitness target r = 1"
    using assms(3,4) by (simp add: t range_fitness_sentinel_target)
  have g: "1 \<le> fst (FitnessAndQuality L mimetype parsedRanges)"
    using fq_foldl_fst_ge [OF assms(5) c, of L "(- 1, Fin 0)"] assms(2) f
    by (simp add: FitnessAndQuality_def Let_def)
  have h: "FitnessAndQuality L mimetype parsedRanges =
              (1, fst (Atof L (index_or_empty (params r) ''q'')))"
    if p: "parsedRanges = pre @ r # post"
      and a: "\<forall>x \<in> set pre. \<not> compatible target x"
      and b: "\<forall>x \<in> set post. compatible target x \<longrightarrow> mtype x \<noteq> [] \<and> subtype x \<noteq> []"
    for pre post
  proof -
    have a': "\<forall>x \<in> set pre. compatible target x \<longrightarrow> range_fitness target x < range_fitness target r"
      using a by simp
    have b': "\<forall>x \<in> set post. compatible target x \<longrightarrow> range_fitness target x \<le> range_fitness target r"
      using b by (auto simp: f t range_fitness_sentinel_target)
    from fq_foldl_first_max [OF c a' b', of L] show ?thesis
      using assms(2) p f by (simp add: FitnessAndQuality_def Let_def)
  qed
  from t e c g h show ?thesis by blast
qed

theorem malformed_candidate_witness:
  "count_list (head_token ascii_lib ''junk'') CHR ''/'' \<noteq> 1 \<and>
   ParseHeader ascii_lib ''text/html,*/*;q=0.5'' =
     [\<lparr>mtype = ''text'', subtype = ''html'', params = [(''q'', ''1'')]\<rparr>,
      \<lparr>mtype = ''*'', subtype = ''*'', params = [(''q'', ''0.5'')]\<rparr>] \<and>
   FitnessAndQuality ascii_lib ''junk'' (ParseHeader ascii_lib ''text/html,*/*;q=0.5'')
     = (1, Fin (1 / 2))"
proof -
  let ?ra = "\<lparr>mtype = ''text'', subtype = ''html'', params = [(''q'', ''1'')]\<rparr>"
  let ?r = "\<lparr>mtype = ''*'', subtype = ''*'', params = [(''q'', ''0.5'')]\<rparr>"
  let ?t = "fst (ParseMediaRange ascii_lib ''junk'')"
  have j: "count_list (head_token ascii_lib ''junk'') CHR ''/'' \<noteq> 1" by code_simp
  have p: "ParseHeader ascii_lib ''text/html,*/*;q=0.5'' = [?ra] @ ?r # []" by code_simp
  have m: "?r \<in> set (ParseHeader ascii_lib ''text/html,*/*;q=0.5'')" by (simp add: p)
  have n: "\<not> compatible ?t ?ra" by code_simp
  have q: "fst (Atof ascii_lib (index_or_empty (params ?r) ''q'')) = Fin (1 / 2)" by code_simp
  from malformed_candidate [OF j refl _ _ m]
  have "\<forall>pre post.
      ParseHeader ascii_lib ''text/html,*/*;q=0.5'' = pre @ ?r # post \<and>
      (\<forall>x \<in> set pre. \<not> compatible ?t x) \<and>
      (\<forall>x \<in> set post. compatible ?t x \<longrightarrow> mtype x \<noteq> [] \<and> subtype x \<noteq> []) \<longrightarrow>
      FitnessAndQuality ascii_lib ''junk'' (ParseHeader ascii_lib ''text/html,*/*;q=0.5'') =
        (1, fst (Atof ascii_lib (index_or_empty (params ?r) ''q'')))"
    by simp
  then have "FitnessAndQuality ascii_lib ''junk'' (ParseHeader ascii_lib ''text/html,*/*;q=0.5'') =
        (1, fst (Atof ascii_lib (index_or_empty (params ?r) ''q'')))"
    using p n by (elim allE [of _ "[?ra]"] allE [of _ "[]"]) simp
  then show ?thesis using j p q by simp
qed

text \<open>
  C8. The quality of \<open>text/html;level=1\<close> for the header of RFC 2616 is 1: the range
  with the matching \<open>level\<close> (the third) has fitness 112, which is returned, above the
  111 of \<open>text/html;q=0.7\<close> (the second), and its missing \<open>q\<close> is filled with the
  string \<open>1\<close>. Asked of the library: it lower-cases and trims ASCII text as described
  above, and \<open>Atof\<close> reads the string \<open>1\<close> as 1.
\<close>

theorem Quality_level_example:
  assumes "ascii_agree L" and "fst (Atof L ''1'') = Fin 1"
  shows "Quality L ''text/html;level=1''
           ''text/*;q=0.3, text/html;q=0.7, text/html;level=1, text/html;level=2;q=0.4, */*;q=0.5''
         = Fin 1 \<and>
         fst (FitnessAndQuality L ''text/html;level=1'' (ParseHeader L
           ''text/*;q=0.3, text/html;q=0.7, text/html;level=1, text/html;level=2;q=0.4, */*;q=0.5''))
         = 112 \<and>
         range_fitness (fst (ParseMediaRange L ''text/html;level=1'')) (ParseHeader L
           ''text/*;q=0.3, text/html;q=0.7, text/html;level=1, text/html;level=2;q=0.4, */*;q=0.5'' ! 1)
         = 111 \<and>
         ParseHeader L
           ''text/*;q=0.3, text/html;q=0.7, text/html;level=1, text/html;level=2;q=0.4, */*;q=0.5'' ! 2
         = \<lparr>mtype = ''text'', subtype = ''html'', params = [(''level'', ''1''), (''q'', ''1'')]\<rparr>"
proof -
  let ?h = "''text/*;q=0.3, text/html;q=0.7, text/html;level=1, text/html;level=2;q=0.4, */*;q=0.5''"
  let ?t = "\<lparr>mtype = ''text'', subtype = ''html'', params = [(''level'', ''1''), (''q'', ''1'')]\<rparr>"
  let ?u = "\<lparr>mtype = ''text'', subtype = ''html'', params = [(''level'', ''1'')]\<rparr>"
  let ?P = "\<lambda>e. fst (ParseMediaRange L e)"
  have e0: "ParseMimeType L ''text/html;level=1'' = ParseMimeType ascii_lib ''text/html;level=1''"
    by (rule ParseMimeType_ascii [OF assms(1)]) code_simp
  have e1: "ParseMimeType L ''text/*;q=0.3'' = ParseMimeType ascii_lib ''text/*;q=0.3''"
    by (rule ParseMimeType_ascii [OF assms(1)]) code_simp
  have e2: "ParseMimeType L '' text/html;q=0.7'' = ParseMimeType ascii_lib '' text/html;q=0.7''"
    by (rule ParseMimeType_ascii [OF assms(1)]) code_simp
  have e3: "ParseMimeType L '' text/html;level=1'' = ParseMimeType ascii_lib '' text/html;level=1''"
    by (rule ParseMimeType_ascii [OF assms(1)]) code_simp
  have e4: "ParseMimeType L '' text/html;level=2;q=0.4''
              = ParseMimeType ascii_lib '' text/html;level=2;q=0.4''"
    by (rule ParseMimeType_ascii [OF assms(1)]) code_simp
  have e5: "ParseMimeType L '' */*;q=0.5'' = ParseMimeType ascii_lib '' */*;q=0.5''"
    by (rule ParseMimeType_ascii [OF assms(1)]) code_simp
  have pm: "ParseMimeType ascii_lib ''text/html;level=1'' = (?u, None)"
    by code_simp
  have pm3: "ParseMimeType ascii_lib '' text/html;level=1'' = (?u, None)"
    by code_simp
  have t: "?P ''text/html;level=1'' = ?t"
    by (simp add: ParseMediaRange_def e0 pm)
  have r3: "?P '' text/html;level=1'' = ?t"
    by (simp add: ParseMediaRange_def e3 pm3)
  have sp: "Split ?h CHR '','' (- 1) =
            [''text/*;q=0.3'', '' text/html;q=0.7'', '' text/html;level=1'',
             '' text/html;level=2;q=0.4'', '' */*;q=0.5'']"
    by code_simp
  have ph: "ParseHeader L ?h =
      [?P ''text/*;q=0.3'', ?P '' text/html;q=0.7''] @ ?t #
      [?P '' text/html;level=2;q=0.4'', ?P '' */*;q=0.5'']"
    by (simp add: ParseHeader_def sp r3)
  have f1: "range_fitness ?t (fst (ParseMimeType ascii_lib ''text/*;q=0.3'')) = 101" by code_simp
  have f2: "range_fitness ?t (fst (ParseMimeType ascii_lib '' text/html;q=0.7'')) = 111" by code_simp
  have f3: "range_fitness ?t ?t = 112" by code_simp
  have f4: "range_fitness ?t (fst (ParseMimeType ascii_lib '' text/html;level=2;q=0.4'')) = 111"
    by code_simp
  have f5: "range_fitness ?t (fst (ParseMimeType ascii_lib '' */*;q=0.5'')) = 1" by code_simp
  have c: "compatible ?t ?t" by (simp add: compatible_def)
  have a: "\<forall>x \<in> set [?P ''text/*;q=0.3'', ?P '' text/html;q=0.7''].
             compatible ?t x \<longrightarrow> range_fitness ?t x < range_fitness ?t ?t"
    by (simp add: range_fitness_ParseMediaRange e1 e2 f1 f2 f3)
  have b: "\<forall>x \<in> set [?P '' text/html;level=2;q=0.4'', ?P '' */*;q=0.5''].
             compatible ?t x \<longrightarrow> range_fitness ?t x \<le> range_fitness ?t ?t"
    by (simp add: range_fitness_ParseMediaRange e4 e5 f3 f4 f5)
  have "foldl (fq_step L ?t) (- 1, Fin 0)
          ([?P ''text/*;q=0.3'', ?P '' text/html;q=0.7''] @ ?t #
           [?P '' text/html;level=2;q=0.4'', ?P '' */*;q=0.5'']) =
        (range_fitness ?t ?t, fst (Atof L (index_or_empty (params ?t) ''q'')))"
    by (rule fq_foldl_first_max [OF c a b])
  then have fq: "FitnessAndQuality L ''text/html;level=1'' (ParseHeader L ?h) = (112, Fin 1)"
    using assms(2)
    by (simp add: FitnessAndQuality_def Let_def ph t f3 index_or_empty_def)
  have q: "Quality L ''text/html;level=1'' ?h = Fin 1"
    by (simp add: Quality_def QualityParsed_def fq)
  have s: "range_fitness (?P ''text/html;level=1'') (ParseHeader L ?h ! 1) = 111"
    by (simp add: ph t range_fitness_ParseMediaRange e2 f2)
  have d: "ParseHeader L ?h ! 2 = ?t"
    by (simp add: ph)
  from q fq s d show ?thesis by simp
qed

theorem Quality_level_example_witness:
  "ascii_agree ascii_lib \<and> fst (Atof ascii_lib ''1'') = Fin 1 \<and>
   Quality ascii_lib ''text/html;level=1''
     ''text/*;q=0.3, text/html;q=0.7, text/html;level=1, text/html;level=2;q=0.4, */*;q=0.5''
     = Fin 1"
proof -
  have one: "fst (Atof ascii_lib ''1'') = Fin 1" by code_simp
  from Quality_level_example [OF ascii_agree_ascii_lib one] ascii_agree_ascii_lib one
  show ?thesis by simp
qed

text \<open>
  C9. The number returned by \<open>Quality\<close> is to lie in the interval from 0 to 1 for every
  mime type and every header. A \<open>q\<close> that \<^verbatim>\<open>strconv.Atof\<close> reads as a NaN passes the
  two comparisons of \<open>ParseMediaRange\<close> and is read again by \<open>FitnessAndQuality\<close>:
  the quality of \<open>a/b\<close> for the header \<open>a/b;q=NaN\<close> is a NaN.
\<close>

theorem Quality_NaN:
  "Quality ascii_lib ''a/b'' ''a/b;q=NaN'' = NaN \<and>
   \<not> in_unit (Quality ascii_lib ''a/b'' ''a/b;q=NaN'')"
  by code_simp

text \<open>
  What holds for every library that reads the strings \<open>0\<close> and \<open>1\<close> as numbers of the
  interval: the quality lies in the interval whenever no \<open>q\<close> parameter of an entry of
  the header is read as a NaN, and it is 0 when no range of the header is compatible with
  the mime type.
\<close>

lemma unit_q_ParseMediaRange:
  assumes "in_unit (fst (Atof L ''1''))"
    and "in_unit (fst (Atof L ''0''))"
    and "\<forall>q. map_of (params (fst (ParseMimeType L e))) ''q'' = Some q \<longrightarrow> fst (Atof L q) \<noteq> NaN"
  shows "in_unit (fst (Atof L (index_or_empty (params (fst (ParseMediaRange L e))) ''q'')))"
proof (cases "snd (ParseMimeType L e) = None")
  case False
  then have "count_list (head_token L e) CHR ''/'' \<noteq> 1"
    using ParseMimeType_error_iff [of L e] by simp
  then show ?thesis
    using assms(2) by (simp add: ParseMediaRange_bad index_or_empty_def)
next
  case True
  show ?thesis
  proof (cases "map_of (params (fst (ParseMimeType L e))) ''q''")
    case None
    then show ?thesis
      using True assms(1)
      by (simp add: ParseMediaRange_def case_prod_beta index_or_empty_update)
  next
    case (Some q)
    show ?thesis
    proof (cases "snd (Atof L q) \<or> float_greater (fst (Atof L q)) (Fin 1)
                    \<or> float_less (fst (Atof L q)) (Fin 0)")
      case True
      then show ?thesis
        using \<open>snd (ParseMimeType L e) = None\<close> Some assms(1)
        by (auto simp: ParseMediaRange_def case_prod_beta index_or_empty_update)
    next
      case False
      have "fst (Atof L q) \<noteq> NaN"
        using assms(3) Some by simp
      with False have "in_unit (fst (Atof L q))"
        using not_in_unit_iff [of "fst (Atof L q)"] by blast
      then show ?thesis
        using \<open>snd (ParseMimeType L e) = None\<close> Some False
        by (simp add: ParseMediaRange_def case_prod_beta index_or_empty_def)
    qed
  qed
qed

lemma fq_foldl_unit:
  "in_unit (snd best) \<Longrightarrow>
   \<forall>r \<in> set rs. in_unit (fst (Atof L (index_or_empty (params r) ''q''))) \<Longrightarrow>
   in_unit (snd (foldl (fq_step L target) best rs))"
  by (induction rs arbitrary: best) (simp_all add: fq_step_def)

lemma Quality_in_unit_without_NaN:
  assumes "in_unit (fst (Atof L ''1''))"
    and "in_unit (fst (Atof L ''0''))"
    and "\<forall>e \<in> set (Split ranges CHR '','' (- 1)).
           \<forall>q. map_of (params (fst (ParseMimeType L e))) ''q'' = Some q \<longrightarrow> fst (Atof L q) \<noteq> NaN"
  shows "in_unit (Quality L mimetype ranges)"
proof -
  have "\<forall>r \<in> set (ParseHeader L ranges).
          in_unit (fst (Atof L (index_or_empty (params r) ''q'')))"
    using unit_q_ParseMediaRange [OF assms(1,2)] assms(3) by (auto simp: ParseHeader_def)
  moreover have "in_unit (snd (- 1 :: int, Fin 0))"
    by (simp add: in_unit_def)
  ultimately show ?thesis
    unfolding Quality_def QualityParsed_def FitnessAndQuality_def Let_def
    by (intro fq_foldl_unit)
qed

lemma Quality_zero_without_match:
  assumes "\<forall>r \<in> set (ParseHeader L ranges). \<not> compatible (fst (ParseMediaRange L mimetype)) r"
  shows "Quality L mimetype ranges = Fin 0"
  using fq_foldl_none [OF assms]
  by (simp add: Quality_def QualityParsed_def FitnessAndQuality_def Let_def)

section \<open>The selector: claims\<close>




end
